theory Spec2Isabelle
  imports Complex_Main "HOL-Library.Multiset" "HOL-Library.Char_ord" "HOL-Library.List_Lexorder"
begin

section \<open>NTP monitoring: the data model of update.py\<close>

text \<open>
  Python floats are modelled as \<open>real\<close>: the arithmetic of the source is read as exact
  arithmetic, and nothing below speaks about rounding. A \<open>datetime\<close> value is the pair of
  the instant it denotes (seconds since the epoch) and the text \<open>isoformat()\<close> renders for
  it; the difference of two datetimes, \<open>total_seconds()\<close>, is the difference of the instants.
\<close>

record datetime =
  seconds :: real
  isoformat :: string

text \<open>The fields of an \<open>ntplib\<close> response that \<open>process_response\<close> reads.\<close>

record ntp_stats =
  orig_time :: real
  recv_time :: real
  tx_time :: real
  dest_time :: real
  root_delay :: real
  root_dispersion :: real
  resp_stratum :: int
  precision :: int

text \<open>
  One row of table \<open>ntp_data\<close>, columns in schema order (index 0 is \<open>id\<close>, index 7 is
  \<open>stratum\<close>, index 10 is \<open>status\<close>). The table is the list of its rows in rowid order.
\<close>

record ntp_row =
  row_id :: nat
  timestamp :: string
  server :: string
  offset_ms :: real
  delay_ms :: real
  root_delay_ms :: real
  root_dispersion_ms :: real
  stratum :: int
  response_time_ms :: real
  precision_ms :: real
  status :: string

type_synonym ntp_data = "ntp_row list"

datatype exn = OperationalError | StatisticsError | KeyError | ValueError

text \<open>
  What the world answers to one call of \<open>query_ntp_server\<close>: the reply of
  \<open>client.request\<close> (\<open>None\<close> when it raises), the clock read by \<open>datetime.now(ist)\<close>
  right after, and whether the one \<open>INSERT\<close> made for this server in this cycle is
  accepted by SQLite (\<open>False\<close>: \<open>connect\<close>, \<open>execute\<close> or \<open>commit\<close> raises).
\<close>

record probe_env =
  reply :: "ntp_stats option"
  now :: datetime
  sink_ok :: bool

text \<open>The dictionary \<open>query_ntp_server\<close> returns on success.\<close>

record probe_data =
  d_server :: string
  d_response :: ntp_stats
  d_timestamp :: string

text \<open>The dictionary \<open>process_response\<close> returns.\<close>

record metrics =
  offset :: real
  delay :: real

definition ntp_servers :: "string list" where
  "ntp_servers =
    [''157.20.66.8'', ''157.20.67.8'', ''14.139.60.103'', ''14.139.60.106'', ''14.139.60.107'',
     ''time.nplindia.in'', ''time.nplindia.org'', ''samay1.nic.in'', ''samay2.nic.in'',
     ''time.nist.gov'', ''pool.ntp.org'', ''time.windows.com'', ''time.google.com'',
     ''asia.pool.ntp.org'', ''uk.pool.ntp.org'']"

subsection \<open>The table: AUTOINCREMENT insert\<close>

definition next_id :: "ntp_data \<Rightarrow> nat" where
  "next_id db = Suc (foldr max (map row_id db) 0)"

text \<open>
  \<open>INSERT INTO ntp_data (timestamp, server, ..., status) VALUES (?, ..., ?)\<close>: the ten
  values in column order; the id is assigned by the table.
\<close>

definition insert_row ::
  "ntp_data \<Rightarrow> string \<Rightarrow> string \<Rightarrow> real \<Rightarrow> real \<Rightarrow> real \<Rightarrow> real \<Rightarrow> int \<Rightarrow> real \<Rightarrow> real \<Rightarrow> string
     \<Rightarrow> ntp_data" where
  "insert_row db ts srv off del rdel rdisp strat rt prec st =
     db @ [\<lparr>row_id = next_id db, timestamp = ts, server = srv, offset_ms = off, delay_ms = del,
            root_delay_ms = rdel, root_dispersion_ms = rdisp, stratum = strat,
            response_time_ms = rt, precision_ms = prec, status = st\<rparr>]"

subsection \<open>query_ntp_server and process_response\<close>

text \<open>
  \<open>query_ntp_server\<close>: on a reply, the dictionary; on any exception of the request, an
  \<open>Error\<close> row with zeros is inserted and \<open>None\<close> is returned. An exception of that
  insert is raised inside the handler and leaves the function.
\<close>

definition query_ntp_server ::
  "probe_env \<Rightarrow> ntp_data \<Rightarrow> string \<Rightarrow> ntp_data \<times> (exn + probe_data option)" where
  "query_ntp_server env db srv =
     (case reply env of
        Some response \<Rightarrow>
          (db, Inr (Some \<lparr>d_server = srv, d_response = response,
                          d_timestamp = isoformat (now env)\<rparr>))
      | None \<Rightarrow>
          (if sink_ok env
           then (insert_row db (isoformat (now env)) srv 0 0 0 0 0 0 0 ''Error'', Inr None)
           else (db, Inl OperationalError)))"

definition process_response ::
  "bool \<Rightarrow> ntp_data \<Rightarrow> probe_data option \<Rightarrow> ntp_data \<times> (exn + metrics option)" where
  "process_response ok db data =
     (case data of
        None \<Rightarrow> (db, Inr None)
      | Some d \<Rightarrow>
         (let response = d_response d;
              T1 = orig_time response;
              T2 = recv_time response;
              T3 = tx_time response;
              T4 = dest_time response;
              offs = ((T2 - T1) + (T3 - T4)) / 2 * 1000;
              del = ((T4 - T1) - (T3 - T2)) * 1000;
              response_time = (T3 - T2) * 1000;
              rdel = root_delay response * 1000;
              rdisp = root_dispersion response * 1000;
              strat = resp_stratum response;
              prec = (2 powi precision response) * 1000
          in if ok
             then (insert_row db (d_timestamp d) (d_server d) offs del rdel rdisp
                     strat response_time prec ''Online'',
                   Inr (Some \<lparr>offset = offs, delay = del\<rparr>))
             else (db, Inl OperationalError)))"

subsection \<open>The statistics library: mean and stdev\<close>

text \<open>
  Python's \<open>statistics.mean\<close> raises on an empty list; \<open>statistics.stdev\<close> is the
  square root of the sample variance (divisor \<open>n - 1\<close>) and raises on fewer than two
  values.
\<close>

definition mean :: "real list \<Rightarrow> exn + real" where
  "mean xs = (if xs = [] then Inl StatisticsError else Inr (sum_list xs / real (length xs)))"

definition variance :: "real list \<Rightarrow> exn + real" where
  "variance xs =
     (if length xs < 2 then Inl StatisticsError
      else let c = sum_list xs / real (length xs);
               ss = sum_list (map (\<lambda>x. (x - c)\<^sup>2) xs)
           in Inr (ss / real (length xs - 1)))"

definition stdev :: "real list \<Rightarrow> exn + real" where
  "stdev xs = (case variance xs of Inl e \<Rightarrow> Inl e | Inr v \<Rightarrow> Inr (sqrt v))"

subsection \<open>One cycle of ntp_monitoring_loop\<close>

text \<open>
  \<open>as_completed\<close> yields every submitted future once, in the order the futures finish.
  That order is not determined by the program: it is read from a schedule, each entry
  choosing one of the futures still pending.
\<close>

fun as_completed :: "nat list \<Rightarrow> 'a list \<Rightarrow> 'a list" where
  "as_completed sched [] = []"
| "as_completed [] fs = fs"
| "as_completed (k # sched) fs =
     (let i = k mod length fs
      in fs ! i # as_completed sched (take i fs @ drop (Suc i) fs))"

text \<open>
  The pool has one worker per server, so every call of \<open>query_ntp_server\<close> runs, also
  when the loop over the finished futures is left by an exception: leaving the
  \<open>with\<close> block waits for the workers. The workers' inserts and the inserts of the
  collecting thread interleave; the model runs the workers first, in completion order,
  and the collecting loop after them, which is one of the possible interleavings and gives
  the same rows as any other, up to their order and ids. A future holds what its call
  returned or raised, together with the answer the table gives to the insert of
  \<open>process_response\<close> for it.
\<close>

type_synonym future = "(exn + probe_data option) \<times> bool"

fun run_workers :: "ntp_data \<Rightarrow> (string \<times> probe_env) list \<Rightarrow> ntp_data \<times> future list" where
  "run_workers db [] = (db, [])"
| "run_workers db ((srv, env) # rest) =
     (case query_ntp_server env db srv of
        (db', res) \<Rightarrow>
          (case run_workers db' rest of
             (db'', futs) \<Rightarrow> (db'', (res, sink_ok env) # futs)))"

text \<open>
  The loop \<open>for future in as_completed(...)\<close>: \<open>future.result()\<close> raises again what the
  worker raised; an exception of \<open>process_response\<close> leaves the loop as well.
\<close>

fun collect ::
  "ntp_data \<Rightarrow> future list \<Rightarrow> real list \<Rightarrow> real list \<Rightarrow> ntp_data \<times> (exn + real list \<times> real list)" where
  "collect db [] delays offsets = (db, Inr (delays, offsets))"
| "collect db ((fut, ok) # futs) delays offsets =
     (case fut of
        Inl e \<Rightarrow> (db, Inl e)
      | Inr data \<Rightarrow>
          (case process_response ok db data of
             (db', Inl e) \<Rightarrow> (db', Inl e)
           | (db', Inr None) \<Rightarrow> collect db' futs delays offsets
           | (db', Inr (Some result)) \<Rightarrow>
               collect db' futs (delays @ [delay result]) (offsets @ [offset result])))"

record cycle_summary =
  jitter :: real
  offset_mean :: real
  sleep_time :: real

text \<open>\<open>if len(delays) > 1: ... else: ...\<close>\<close>

definition summarise :: "real list \<Rightarrow> real list \<Rightarrow> exn + real \<times> real" where
  "summarise delays offsets =
     (if length delays > 1
      then (case stdev delays of
              Inl e \<Rightarrow> Inl e
            | Inr j \<Rightarrow> (case mean offsets of Inl e \<Rightarrow> Inl e | Inr m \<Rightarrow> Inr (j, m)))
      else Inr (0, if offsets \<noteq> [] then hd offsets else 0))"

text \<open>\<open>elapsed = (datetime.now(ist) - cycle_start).total_seconds()\<close>, in seconds.\<close>

definition sleep_for :: "datetime \<Rightarrow> datetime \<Rightarrow> real" where
  "sleep_for cycle_start cycle_end =
     (let elapsed = seconds cycle_end - seconds cycle_start in max 0 (300 - elapsed))"

text \<open>
  What the world supplies to one iteration: the clock at its start, the answers to the
  probes, the completion schedule, and the clock after the summary is printed.
\<close>

record cycle_env =
  cycle_start :: datetime
  answers :: "string \<Rightarrow> probe_env"
  schedule :: "nat list"
  cycle_end :: datetime

text \<open>
  The futures of one cycle in the order they finish: one per server of the roster, each
  with the world's answer for that server.
\<close>

definition completed :: "cycle_env \<Rightarrow> (string \<times> probe_env) list" where
  "completed e = as_completed (schedule e) (map (\<lambda>srv. (srv, answers e srv)) ntp_servers)"

definition run_cycle :: "cycle_env \<Rightarrow> ntp_data \<Rightarrow> ntp_data \<times> (exn + cycle_summary)" where
  "run_cycle e db =
     (case run_workers db (completed e) of
        (db1, futs) \<Rightarrow>
          (case collect db1 futs [] [] of
             (db2, Inl x) \<Rightarrow> (db2, Inl x)
           | (db2, Inr (delays, offsets)) \<Rightarrow>
               (case summarise delays offsets of
                  Inl x \<Rightarrow> (db2, Inl x)
                | Inr (j, m) \<Rightarrow>
                    (db2, Inr \<lparr>jitter = j, offset_mean = m,
                               sleep_time = sleep_for (cycle_start e) (cycle_end e)\<rparr>))))"

text \<open>
  \<open>while True\<close>: the loop never returns. The model runs it on the environments of its
  first cycles and gives the table, the summaries printed, and the exception that ended
  the thread, if one did; after an exception no further cycle runs. An iteration that
  reaches its end prints its summary and calls \<open>time.sleep(sleep_time)\<close>, the duration
  the summary records; when that sleep returns the next iteration begins, on the table
  the cycle left. A sleep of zero returns at once.
\<close>

fun ntp_monitoring_loop ::
  "ntp_data \<Rightarrow> cycle_env list \<Rightarrow> ntp_data \<times> cycle_summary list \<times> exn option" where
  "ntp_monitoring_loop db [] = (db, [], None)"
| "ntp_monitoring_loop db (e # es) =
     (case run_cycle e db of
        (db', Inl x) \<Rightarrow> (db', [], Some x)
      | (db', Inr s) \<Rightarrow>
          (case ntp_monitoring_loop db' es of
             (db'', ss, r) \<Rightarrow> (db'', s # ss, r)))"

section \<open>The HTTP API over the table\<close>

subsection \<open>Number formatting\<close>

text \<open>
  \<open>f"{x:.3f}"\<close>: the value rounded to three decimals, a tie going to the even
  neighbour, written with a sign for negative values, the integer part and exactly three
  decimals.
\<close>

definition digit_char :: "nat \<Rightarrow> char" where
  "digit_char d = ''0123456789'' ! d"

fun str_nat :: "nat \<Rightarrow> string" where
  "str_nat n = (if n < 10 then [digit_char n] else str_nat (n div 10) @ [digit_char (n mod 10)])"

declare str_nat.simps [simp del]

definition round_half_even :: "real \<Rightarrow> int" where
  "round_half_even x =
     (let f = \<lfloor>x\<rfloor>; d = x - of_int f
      in if d < 1 / 2 then f else if d > 1 / 2 then f + 1 else if even f then f else f + 1)"

definition fmt3 :: "real \<Rightarrow> string" where
  "fmt3 x =
     (let n = nat \<bar>round_half_even (x * 1000)\<bar>
      in (if x < 0 then ''-'' else '''') @ str_nat (n div 1000) @ ''.'' @
         [digit_char (n div 100 mod 10), digit_char (n div 10 mod 10), digit_char (n mod 10)])"

type_synonym json_obj = "(string \<times> string) list"

subsection \<open>Realtime: the latest row of each server\<close>

text \<open>
  A JSON object is the list of its keys and values in the order the dictionary literal
  writes them. Both endpoints build the same nine entries from columns 1 to 6 and 8 to 10
  of a row.
\<close>

definition realtime_record :: "ntp_row \<Rightarrow> json_obj" where
  "realtime_record row =
     [(''timestamp'', timestamp row),
      (''server'', server row),
      (''offset_ms'', fmt3 (offset_ms row)),
      (''delay_ms'', fmt3 (delay_ms row)),
      (''root_delay_ms'', fmt3 (root_delay_ms row)),
      (''root_dispersion_ms'', fmt3 (root_dispersion_ms row)),
      (''response_time_ms'', fmt3 (response_time_ms row)),
      (''precision_ms'', fmt3 (precision_ms row)),
      (''status'', status row)]"

text \<open>
  \<open>SELECT t1.* FROM ntp_data t1 WHERE t1.id = (SELECT MAX(t2.id) FROM ntp_data t2
  WHERE t2.server = t1.server)\<close>, rows in table order. \<open>MAX\<close> over no rows is NULL.
\<close>

definition max_id :: "ntp_row list \<Rightarrow> nat option" where
  "max_id rows = (case rows of [] \<Rightarrow> None | r # rs \<Rightarrow> Some (fold max (map row_id rs) (row_id r)))"

definition latest_rows :: "ntp_data \<Rightarrow> ntp_row list" where
  "latest_rows db = [t1 \<leftarrow> db. Some (row_id t1) = max_id [t2 \<leftarrow> db. server t2 = server t1]]"

definition preferred_order :: "string list" where
  "preferred_order =
    [''14.139.60.103'', ''14.139.60.106'', ''14.139.60.107'', ''time.nplindia.in'',
     ''time.nplindia.org'', ''samay1.nic.in'', ''samay2.nic.in'', ''time.nist.gov'',
     ''pool.ntp.org'', ''time.windows.com'', ''time.google.com'', ''asia.pool.ntp.org'',
     ''uk.pool.ntp.org'', ''157.20.66.8'', ''157.20.67.8'']"

text \<open>
  \<open>data.sort(key=lambda x: preferred_order.index(x['server']) if x['server'] in
  preferred_order else 999)\<close>. The sort computes the key of every element first (a missing
  dictionary key or list element raises), then sorts stably by key.
\<close>

fun index_of :: "'a list \<Rightarrow> 'a \<Rightarrow> nat option" where
  "index_of [] x = None"
| "index_of (y # ys) x = (if y = x then Some 0 else map_option Suc (index_of ys x))"

definition sort_key_of :: "json_obj \<Rightarrow> exn + nat" where
  "sort_key_of x =
     (case map_of x ''server'' of
        None \<Rightarrow> Inl KeyError
      | Some s \<Rightarrow>
          (if s \<in> set preferred_order
           then (case index_of preferred_order s of None \<Rightarrow> Inl ValueError | Some i \<Rightarrow> Inr i)
           else Inr 999))"

fun sort_keys :: "json_obj list \<Rightarrow> exn + nat list" where
  "sort_keys [] = Inr []"
| "sort_keys (x # xs) =
     (case sort_key_of x of
        Inl e \<Rightarrow> Inl e
      | Inr k \<Rightarrow> (case sort_keys xs of Inl e \<Rightarrow> Inl e | Inr ks \<Rightarrow> Inr (k # ks)))"

definition sort_data :: "json_obj list \<Rightarrow> exn + json_obj list" where
  "sort_data data =
     (case sort_keys data of
        Inl e \<Rightarrow> Inl e
      | Inr ks \<Rightarrow> Inr (map snd (sort_key fst (zip ks data))))"

text \<open>
  The endpoints take the answer of SQLite to their query: \<open>db_ok = False\<close> is any
  exception of \<open>connect\<close>, \<open>execute\<close> or \<open>fetchall\<close>. Every exception ends in the
  handler, which answers with status 500 (\<open>Inl\<close>); \<open>Inr\<close> is the JSON list of a 200 answer.
\<close>

definition get_realtime_data :: "bool \<Rightarrow> ntp_data \<Rightarrow> exn + json_obj list" where
  "get_realtime_data db_ok db =
     (if \<not> db_ok then Inl OperationalError
      else let rows = latest_rows db;
               data = map realtime_record rows
           in sort_data data)"

subsection \<open>History: the last ten rows of one server\<close>

text \<open>
  \<open>SELECT * FROM ntp_data WHERE server = ? ORDER BY timestamp DESC LIMIT 10\<close>, the
  timestamps compared as text. The parameter is \<open>None\<close> when the request has no
  \<open>server\<close> argument, and then matches no row. Rows with equal timestamps come out
  in table order, as SQLite's sorter leaves them: the descending order is the reverse of
  a stable ascending sort of the reversed rows.
\<close>

definition history_record :: "ntp_row \<Rightarrow> json_obj" where
  "history_record row =
     [(''timestamp'', timestamp row),
      (''server'', server row),
      (''offset_ms'', fmt3 (offset_ms row)),
      (''delay_ms'', fmt3 (delay_ms row)),
      (''root_delay_ms'', fmt3 (root_delay_ms row)),
      (''root_dispersion_ms'', fmt3 (root_dispersion_ms row)),
      (''response_time_ms'', fmt3 (response_time_ms row)),
      (''precision_ms'', fmt3 (precision_ms row)),
      (''status'', status row)]"

definition get_history :: "bool \<Rightarrow> ntp_data \<Rightarrow> string option \<Rightarrow> exn + json_obj list" where
  "get_history db_ok db srv =
     (if \<not> db_ok then Inl OperationalError
      else let rows = take 10 (rev (sort_key timestamp
                                      (rev [r \<leftarrow> db. Some (server r) = srv])))
           in Inr (map history_record rows))"

section \<open>Vocabulary of the properties\<close>

text \<open>
  The sample standard deviation and the arithmetic mean, as the properties name them.
\<close>

definition sample_sd :: "real list \<Rightarrow> real" where
  "sample_sd xs =
     sqrt (sum_list (map (\<lambda>x. (x - sum_list xs / real (length xs))\<^sup>2) xs) / real (length xs - 1))"

definition arith_mean :: "real list \<Rightarrow> real" where
  "arith_mean xs = sum_list xs / real (length xs)"

text \<open>
  The place of a server in the curated display order; a server that is not in the list
  ranks after all that are.
\<close>

definition display_rank :: "string \<Rightarrow> nat" where
  "display_rank s = (case index_of preferred_order s of None \<Rightarrow> 999 | Some i \<Rightarrow> i)"

text \<open>
  A probe failed when its request raised. The future of a probe holds the outcome of
  \<open>query_ntp_server\<close>, which does not depend on the table.
\<close>

definition probe_failed :: "string \<times> probe_env \<Rightarrow> bool" where
  "probe_failed p = (reply (snd p) = None)"

definition future_of :: "string \<times> probe_env \<Rightarrow> future" where
  "future_of p = (snd (query_ntp_server (snd p) [] (fst p)), sink_ok (snd p))"

text \<open>
  The row a failed probe leaves, and the row a successful exchange leaves, up to the id the
  table assigns.
\<close>

definition error_sample :: "string \<times> probe_env \<Rightarrow> ntp_row \<Rightarrow> bool" where
  "error_sample p r \<longleftrightarrow>
     server r = fst p \<and> timestamp r = isoformat (now (snd p)) \<and> status r = ''Error'' \<and>
     offset_ms r = 0 \<and> delay_ms r = 0 \<and> root_delay_ms r = 0 \<and> root_dispersion_ms r = 0 \<and>
     stratum r = 0 \<and> response_time_ms r = 0 \<and> precision_ms r = 0"

definition online_sample :: "string \<times> probe_env \<Rightarrow> ntp_row \<Rightarrow> bool" where
  "online_sample p r \<longleftrightarrow>
     server r = fst p \<and> timestamp r = isoformat (now (snd p)) \<and> status r = ''Online'' \<and>
     (\<exists>resp. reply (snd p) = Some resp \<and>
        offset_ms r = ((recv_time resp - orig_time resp) + (tx_time resp - dest_time resp)) / 2 * 1000 \<and>
        delay_ms r = ((dest_time resp - orig_time resp) - (tx_time resp - recv_time resp)) * 1000 \<and>
        response_time_ms r = (tx_time resp - recv_time resp) * 1000 \<and>
        root_delay_ms r = root_delay resp * 1000 \<and>
        root_dispersion_ms r = root_dispersion resp * 1000 \<and>
        stratum r = resp_stratum resp \<and>
        precision_ms r = (2 powi precision resp) * 1000)"

text \<open>
  Whether every insert of a cycle is accepted, and the futures that finish before the
  first one whose insert is rejected.
\<close>

definition all_sinks_ok :: "(string \<times> probe_env) list \<Rightarrow> bool" where
  "all_sinks_ok cs = (\<forall>p \<in> set cs. sink_ok (snd p))"

definition before_failure :: "(string \<times> probe_env) list \<Rightarrow> (string \<times> probe_env) list" where
  "before_failure cs = takeWhile (\<lambda>p. sink_ok (snd p)) cs"

text \<open>
  The summary of a cycle that ran to its end, from the \<open>Online\<close> rows it appended.
\<close>

definition summary_of :: "cycle_env \<Rightarrow> ntp_row list \<Rightarrow> cycle_summary" where
  "summary_of e ons =
     \<lparr>jitter = (if length ons < 2 then 0 else sample_sd (map delay_ms ons)),
      offset_mean = (if ons = [] then 0 else arith_mean (map offset_ms ons)),
      sleep_time = sleep_for (cycle_start e) (cycle_end e)\<rparr>"

section \<open>Example inputs\<close>

text \<open>
  Clock readings of 1 January 2024 in IST, replies with round-trip delays of 10 ms and
  20 ms, and a reply whose server timestamps are skewed so that the delay is negative.
\<close>

definition clock_a :: datetime where
  "clock_a = \<lparr>seconds = 1704083400.5, isoformat = ''2024-01-01T10:00:00.500000+05:30''\<rparr>"

definition clock_b :: datetime where
  "clock_b = \<lparr>seconds = 1704083400.75, isoformat = ''2024-01-01T10:00:00.750000+05:30''\<rparr>"

definition clock_c :: datetime where
  "clock_c = \<lparr>seconds = 1704083405.5, isoformat = ''2024-01-01T10:00:05.500000+05:30''\<rparr>"

definition clock_d :: datetime where
  "clock_d = \<lparr>seconds = 1704083710.5, isoformat = ''2024-01-01T10:05:10.500000+05:30''\<rparr>"

definition reply_10ms :: ntp_stats where
  "reply_10ms = \<lparr>orig_time = 1704083400.6, recv_time = 1704083400.604, tx_time = 1704083400.605,
                  dest_time = 1704083400.611, root_delay = 0.001, root_dispersion = 0.002,
                  resp_stratum = 2, precision = -20\<rparr>"

definition reply_20ms :: ntp_stats where
  "reply_20ms = \<lparr>orig_time = 1704083400.6, recv_time = 1704083400.604, tx_time = 1704083400.605,
                  dest_time = 1704083400.621, root_delay = 0.001, root_dispersion = 0.002,
                  resp_stratum = 2, precision = -20\<rparr>"

definition reply_skewed :: ntp_stats where
  "reply_skewed = \<lparr>orig_time = 1704083400.6, recv_time = 1704083400.604, tx_time = 1704083400.65,
                    dest_time = 1704083400.611, root_delay = 0.001, root_dispersion = 0.002,
                    resp_stratum = 2, precision = -20\<rparr>"

definition env_skewed :: probe_env where
  "env_skewed = \<lparr>reply = Some reply_skewed, now = clock_b, sink_ok = True\<rparr>"

definition env_10ms :: probe_env where
  "env_10ms = \<lparr>reply = Some reply_10ms, now = clock_b, sink_ok = True\<rparr>"

definition env_20ms :: probe_env where
  "env_20ms = \<lparr>reply = Some reply_20ms, now = clock_b, sink_ok = True\<rparr>"

definition env_down :: probe_env where
  "env_down = \<lparr>reply = None, now = clock_c, sink_ok = True\<rparr>"

definition env_sink_down :: probe_env where
  "env_sink_down = \<lparr>reply = Some reply_10ms, now = clock_b, sink_ok = False\<rparr>"

text \<open>
  Three cycles: two servers answer and the others are unreachable; one server answers and
  the cycle takes 310 seconds; every server answers but the insert for the first finished
  future is rejected.
\<close>

definition example_cycle :: cycle_env where
  "example_cycle =
     \<lparr>cycle_start = clock_a,
      answers = (\<lambda>srv. if srv = ''time.google.com'' then env_10ms
                       else if srv = ''time.nist.gov'' then env_20ms
                       else env_down),
      schedule = [12, 9],
      cycle_end = clock_c\<rparr>"

definition slow_cycle :: cycle_env where
  "slow_cycle =
     \<lparr>cycle_start = clock_a,
      answers = (\<lambda>srv. if srv = ''time.google.com'' then env_10ms else env_down),
      schedule = [],
      cycle_end = clock_d\<rparr>"

definition sink_failure_cycle :: cycle_env where
  "sink_failure_cycle =
     \<lparr>cycle_start = clock_a,
      answers = (\<lambda>srv. if srv = ''157.20.66.8'' then env_sink_down else env_20ms),
      schedule = [],
      cycle_end = clock_c\<rparr>"

text \<open>
  A table with two rows of one server, a row of a server outside the curated list, and a
  row of the first curated server.
\<close>

definition row_a :: ntp_row where
  "row_a = \<lparr>row_id = 1, timestamp = ''2024-01-01T10:00:00.750000+05:30'',
            server = ''time.google.com'', offset_ms = - 1, delay_ms = 10, root_delay_ms = 1,
            root_dispersion_ms = 2, stratum = 2, response_time_ms = 1,
            precision_ms = 1 / 1024, status = ''Online''\<rparr>"

definition row_b :: ntp_row where
  "row_b = \<lparr>row_id = 2, timestamp = ''2024-01-01T10:00:05.500000+05:30'',
            server = ''ntp.example.org'', offset_ms = 0, delay_ms = 0, root_delay_ms = 0,
            root_dispersion_ms = 0, stratum = 0, response_time_ms = 0,
            precision_ms = 0, status = ''Error''\<rparr>"

definition row_c :: ntp_row where
  "row_c = \<lparr>row_id = 3, timestamp = ''2024-01-01T10:05:00.750000+05:30'',
            server = ''14.139.60.103'', offset_ms = 21.5, delay_ms = - 35, root_delay_ms = 1,
            root_dispersion_ms = 2, stratum = 1, response_time_ms = 46,
            precision_ms = 1 / 1024, status = ''Online''\<rparr>"

definition row_d :: ntp_row where
  "row_d = \<lparr>row_id = 4, timestamp = ''2024-01-01T10:05:00.810000+05:30'',
            server = ''time.google.com'', offset_ms = - 6, delay_ms = 20, root_delay_ms = 1,
            root_dispersion_ms = 2, stratum = 2, response_time_ms = 1,
            precision_ms = 1 / 1024, status = ''Online''\<rparr>"

definition example_db :: ntp_data where
  "example_db = [row_a, row_b, row_c, row_d]"

section \<open>The rows a cycle appends\<close>

subsection \<open>Completion order\<close>

lemma as_completed_mset: "mset (as_completed sched fs) = mset fs"
proof (induction sched fs rule: as_completed.induct)
  case (3 k sched f fs)
  let ?xs = "f # fs"
  let ?i = "k mod length ?xs"
  have i: "?i < length ?xs" by simp
  have "mset ?xs = mset (take ?i ?xs @ ?xs ! ?i # drop (Suc ?i) ?xs)"
    using id_take_nth_drop [OF i] by simp
  also have "\<dots> = mset (?xs ! ?i # (take ?i ?xs @ drop (Suc ?i) ?xs))" by simp
  finally show ?case using 3 by (simp add: Let_def)
qed simp_all

lemma completed_mset:
  "mset (completed e) = mset (map (\<lambda>srv. (srv, answers e srv)) ntp_servers)"
  by (simp only: completed_def as_completed_mset)

lemma completed_set: "set (completed e) = (\<lambda>srv. (srv, answers e srv)) ` set ntp_servers"
proof -
  have "set (completed e) = set (map (\<lambda>srv. (srv, answers e srv)) ntp_servers)"
    using completed_mset [of e] by (rule mset_eq_setD)
  then show ?thesis by simp
qed

lemma completed_servers: "mset (map fst (completed e)) = mset ntp_servers"
proof -
  have "mset (map fst (completed e)) = image_mset fst (mset (completed e))" by simp
  also have "\<dots> = image_mset fst (mset (map (\<lambda>srv. (srv, answers e srv)) ntp_servers))"
    by (simp only: completed_mset)
  also have "\<dots> = mset ntp_servers" by (simp add: image_mset.compositionality comp_def)
  finally show ?thesis .
qed

lemma completed_env: "p \<in> set (completed e) \<Longrightarrow> snd p = answers e (fst p) \<and> fst p \<in> set ntp_servers"
  by (auto simp: completed_set)

lemma ntp_servers_distinct: "distinct ntp_servers"
  by (simp add: ntp_servers_def)

lemma roster_count: "srv \<in> set ntp_servers \<Longrightarrow> count (mset ntp_servers) srv = 1"
  using ntp_servers_distinct unfolding distinct_count_atmost_1 by simp

subsection \<open>List relations\<close>

lemma list_all2_witness:
  "list_all2 P xs ys \<Longrightarrow> y \<in> set ys \<Longrightarrow> \<exists>x \<in> set xs. P x y"
  by (induction rule: list_all2_induct) auto

lemma list_all2_filter_witness:
  "list_all2 P (filter Q xs) ys \<Longrightarrow> y \<in> set ys \<Longrightarrow> \<exists>x \<in> set xs. Q x \<and> P x y"
  using list_all2_witness [of P "filter Q xs" ys y] by auto

lemma length_filter_count: "length [x \<leftarrow> xs. f x = a] = count (mset (map f xs)) a"
  by (induction xs) auto

lemma mset_map_filter_split:
  "mset (map f [x \<leftarrow> xs. P x]) + mset (map f [x \<leftarrow> xs. \<not> P x]) = mset (map f xs)"
  by (induction xs) auto

subsection \<open>Workers, collecting loop, summary\<close>

lemma run_workers_rows:
  "\<exists>new. run_workers db cs = (db @ new, map future_of cs) \<and>
     list_all2 error_sample [p \<leftarrow> cs. probe_failed p \<and> sink_ok (snd p)] new"
proof (induction cs arbitrary: db)
  case Nil
  then show ?case by simp
next
  case (Cons p cs)
  obtain srv env where p: "p = (srv, env)" by (cases p)
  show ?case
  proof (cases "reply env")
    case None
    show ?thesis
    proof (cases "sink_ok env")
      case True
      let ?db1 = "insert_row db (isoformat (now env)) srv 0 0 0 0 0 0 0 ''Error''"
      obtain new where new: "run_workers ?db1 cs = (?db1 @ new, map future_of cs)"
        "list_all2 error_sample [p \<leftarrow> cs. probe_failed p \<and> sink_ok (snd p)] new"
        using Cons.IH [of ?db1] by blast
      obtain r where r: "?db1 = db @ [r]" "error_sample p r"
        by (simp add: insert_row_def error_sample_def p)
      have "run_workers db (p # cs) = (db @ (r # new), map future_of (p # cs))"
        using new(1) r(1) None True by (simp add: p query_ntp_server_def future_of_def)
      moreover have "list_all2 error_sample [q \<leftarrow> p # cs. probe_failed q \<and> sink_ok (snd q)] (r # new)"
        using new(2) r(2) None True by (simp add: p probe_failed_def)
      ultimately show ?thesis by blast
    next
      case False
      obtain new where new: "run_workers db cs = (db @ new, map future_of cs)"
        "list_all2 error_sample [p \<leftarrow> cs. probe_failed p \<and> sink_ok (snd p)] new"
        using Cons.IH [of db] by blast
      have "run_workers db (p # cs) = (db @ new, map future_of (p # cs))"
        using new(1) None False by (simp add: p query_ntp_server_def future_of_def)
      moreover have "list_all2 error_sample [q \<leftarrow> p # cs. probe_failed q \<and> sink_ok (snd q)] new"
        using new(2) None False by (simp add: p probe_failed_def)
      ultimately show ?thesis by blast
    qed
  next
    case (Some resp)
    obtain new where new: "run_workers db cs = (db @ new, map future_of cs)"
      "list_all2 error_sample [p \<leftarrow> cs. probe_failed p \<and> sink_ok (snd p)] new"
      using Cons.IH [of db] by blast
    have "run_workers db (p # cs) = (db @ new, map future_of (p # cs))"
      using new(1) Some by (simp add: p query_ntp_server_def future_of_def)
    moreover have "list_all2 error_sample [q \<leftarrow> p # cs. probe_failed q \<and> sink_ok (snd q)] new"
      using new(2) Some by (simp add: p probe_failed_def)
    ultimately show ?thesis by blast
  qed
qed

lemma process_response_online:
  assumes "reply env = Some resp"
  shows "\<exists>r. process_response True db
            (Some \<lparr>d_server = srv, d_response = resp, d_timestamp = isoformat (now env)\<rparr>)
          = (db @ [r], Inr (Some \<lparr>offset = offset_ms r, delay = delay_ms r\<rparr>)) \<and>
          online_sample (srv, env) r"
  using assms by (simp add: process_response_def insert_row_def online_sample_def Let_def)

lemma collect_rows:
  "\<exists>new. collect db (map future_of cs) ds os =
           (db @ new, if all_sinks_ok cs
                      then Inr (ds @ map delay_ms new, os @ map offset_ms new)
                      else Inl OperationalError) \<and>
     list_all2 online_sample [p \<leftarrow> before_failure cs. \<not> probe_failed p] new"
proof (induction cs arbitrary: db ds os)
  case Nil
  then show ?case by (simp add: all_sinks_ok_def before_failure_def)
next
  case (Cons p cs)
  obtain srv env where p: "p = (srv, env)" by (cases p)
  show ?case
  proof (cases "sink_ok env")
    case False
    have "collect db (map future_of (p # cs)) ds os = (db @ [], Inl OperationalError)"
      using False
      by (cases "reply env")
         (simp_all add: p future_of_def query_ntp_server_def process_response_def Let_def)
    then show ?thesis using False by (simp add: p all_sinks_ok_def before_failure_def)
  next
    case True
    show ?thesis
    proof (cases "reply env")
      case None
      obtain new where new:
        "collect db (map future_of cs) ds os =
           (db @ new, if all_sinks_ok cs
                      then Inr (ds @ map delay_ms new, os @ map offset_ms new)
                      else Inl OperationalError)"
        "list_all2 online_sample [p \<leftarrow> before_failure cs. \<not> probe_failed p] new"
        using Cons.IH [of db ds os] by blast
      have "collect db (map future_of (p # cs)) ds os = collect db (map future_of cs) ds os"
        using None True
        by (simp add: p future_of_def query_ntp_server_def process_response_def)
      then show ?thesis using new None True
        by (auto simp: p all_sinks_ok_def before_failure_def probe_failed_def)
    next
      case (Some resp)
      obtain r where r:
        "process_response True db
            (Some \<lparr>d_server = srv, d_response = resp, d_timestamp = isoformat (now env)\<rparr>)
          = (db @ [r], Inr (Some \<lparr>offset = offset_ms r, delay = delay_ms r\<rparr>))"
        "online_sample (srv, env) r"
        using process_response_online [OF Some] by blast
      obtain new where new:
        "collect (db @ [r]) (map future_of cs) (ds @ [delay_ms r]) (os @ [offset_ms r]) =
           ((db @ [r]) @ new,
            if all_sinks_ok cs
            then Inr ((ds @ [delay_ms r]) @ map delay_ms new, (os @ [offset_ms r]) @ map offset_ms new)
            else Inl OperationalError)"
        "list_all2 online_sample [p \<leftarrow> before_failure cs. \<not> probe_failed p] new"
        using Cons.IH [of "db @ [r]" "ds @ [delay_ms r]" "os @ [offset_ms r]"] by blast
      have "collect db (map future_of (p # cs)) ds os =
            collect (db @ [r]) (map future_of cs) (ds @ [delay_ms r]) (os @ [offset_ms r])"
        using Some True r(1) by (simp add: p future_of_def query_ntp_server_def)
      then have "collect db (map future_of (p # cs)) ds os =
           (db @ (r # new),
            if all_sinks_ok (p # cs)
            then Inr (ds @ map delay_ms (r # new), os @ map offset_ms (r # new))
            else Inl OperationalError)"
        using new(1) True by (simp add: p all_sinks_ok_def)
      moreover have "list_all2 online_sample [q \<leftarrow> before_failure (p # cs). \<not> probe_failed q] (r # new)"
        using new(2) r(2) True Some by (simp add: p before_failure_def probe_failed_def)
      ultimately show ?thesis by blast
    qed
  qed
qed

lemma summarise_total:
  assumes "length ds = length os"
  shows "summarise ds os =
           Inr (if length ds < 2 then 0 else sample_sd ds, if os = [] then 0 else arith_mean os)"
proof (cases "length ds > 1")
  case True
  then have "os \<noteq> []" using assms by auto
  then show ?thesis using True
    by (simp add: summarise_def stdev_def variance_def mean_def sample_sd_def arith_mean_def Let_def)
next
  case False
  then have "os = [] \<or> (\<exists>x. os = [x])" using assms by (cases os) auto
  then show ?thesis using False
    by (auto simp: summarise_def arith_mean_def)
qed

lemma run_cycle_rows:
  "\<exists>errs ons.
     run_cycle e db =
       (db @ errs @ ons,
        if all_sinks_ok (completed e) then Inr (summary_of e ons) else Inl OperationalError) \<and>
     list_all2 error_sample [p \<leftarrow> completed e. probe_failed p \<and> sink_ok (snd p)] errs \<and>
     list_all2 online_sample [p \<leftarrow> before_failure (completed e). \<not> probe_failed p] ons"
proof -
  obtain errs where errs:
    "run_workers db (completed e) = (db @ errs, map future_of (completed e))"
    "list_all2 error_sample [p \<leftarrow> completed e. probe_failed p \<and> sink_ok (snd p)] errs"
    using run_workers_rows [of db "completed e"] by blast
  obtain ons where ons:
    "collect (db @ errs) (map future_of (completed e)) [] [] =
       ((db @ errs) @ ons,
        if all_sinks_ok (completed e)
        then Inr ([] @ map delay_ms ons, [] @ map offset_ms ons)
        else Inl OperationalError)"
    "list_all2 online_sample [p \<leftarrow> before_failure (completed e). \<not> probe_failed p] ons"
    using collect_rows [of "db @ errs" "completed e" "[]" "[]"] by blast
  have s: "summarise (map delay_ms ons) (map offset_ms ons) =
             Inr (if length ons < 2 then 0 else sample_sd (map delay_ms ons),
                  if ons = [] then 0 else arith_mean (map offset_ms ons))"
    using summarise_total [of "map delay_ms ons" "map offset_ms ons"] by simp
  have "run_cycle e db =
       (db @ errs @ ons,
        if all_sinks_ok (completed e) then Inr (summary_of e ons) else Inl OperationalError)"
    by (simp add: run_cycle_def errs(1) ons(1) s summary_of_def)
  then show ?thesis using errs(2) ons(2) by blast
qed

lemma all_sinks_ok_completed:
  "all_sinks_ok (completed e) \<longleftrightarrow> (\<forall>srv \<in> set ntp_servers. sink_ok (answers e srv))"
  by (simp add: all_sinks_ok_def completed_set)

lemma before_failure_all: "all_sinks_ok cs \<Longrightarrow> before_failure cs = cs"
  by (simp add: all_sinks_ok_def before_failure_def)

lemma before_failure_subset: "set (before_failure cs) \<subseteq> set cs"
  by (auto simp: before_failure_def dest: set_takeWhileD)

lemma error_samples_not_online:
  "list_all2 error_sample ps rs \<Longrightarrow> [r \<leftarrow> rs. status r = ''Online''] = []"
  by (induction rule: list_all2_induct) (auto simp: error_sample_def)

lemma online_samples_online:
  "list_all2 online_sample ps rs \<Longrightarrow> [r \<leftarrow> rs. status r = ''Online''] = rs"
  by (induction rule: list_all2_induct) (auto simp: online_sample_def)

lemma error_samples_servers:
  "list_all2 error_sample ps rs \<Longrightarrow> map server rs = map fst ps"
  by (induction rule: list_all2_induct) (auto simp: error_sample_def)

lemma online_samples_servers:
  "list_all2 online_sample ps rs \<Longrightarrow> map server rs = map fst ps"
  by (induction rule: list_all2_induct) (auto simp: online_sample_def)

lemma completed_cycle_rows:
  assumes "run_cycle e db = (db', Inr s)"
  shows "\<exists>ons. [r \<leftarrow> drop (length db) db'. status r = ''Online''] = ons \<and> s = summary_of e ons"
proof -
  obtain errs ons where c:
    "run_cycle e db =
       (db @ errs @ ons,
        if all_sinks_ok (completed e) then Inr (summary_of e ons) else Inl OperationalError)"
    "list_all2 error_sample [p \<leftarrow> completed e. probe_failed p \<and> sink_ok (snd p)] errs"
    "list_all2 online_sample [p \<leftarrow> before_failure (completed e). \<not> probe_failed p] ons"
    using run_cycle_rows [of e db] by blast
  have ok: "all_sinks_ok (completed e)" using assms c(1) by (auto split: if_splits)
  have "db' = db @ errs @ ons" "s = summary_of e ons" using assms c(1) ok by simp_all
  moreover have "[r \<leftarrow> errs @ ons. status r = ''Online''] = ons"
    using error_samples_not_online [OF c(2)] online_samples_online [OF c(3)] by simp
  ultimately show ?thesis by simp
qed

subsection \<open>Ids stay unique\<close>

text \<open>
  The id column is the primary key: the table assigns an id above all present ones, so a
  table with distinct ids keeps them distinct through every cycle.
\<close>

lemma row_id_le_max: "r \<in> set db \<Longrightarrow> row_id r \<le> foldr max (map row_id db) 0"
  by (induction db) (auto simp: max_def)

lemma next_id_fresh: "next_id db \<notin> row_id ` set db"
proof
  assume "next_id db \<in> row_id ` set db"
  then obtain r where "r \<in> set db" "row_id r = next_id db" by auto
  then show False using row_id_le_max [of r db] by (simp add: next_id_def)
qed

lemma insert_row_ids:
  "distinct (map row_id db) \<Longrightarrow>
   distinct (map row_id (insert_row db ts srv off del rdel rdisp strat rt prec st))"
  using next_id_fresh [of db] by (simp add: insert_row_def)

lemma query_ntp_server_ids:
  "distinct (map row_id db) \<Longrightarrow> distinct (map row_id (fst (query_ntp_server env db srv)))"
  by (simp add: query_ntp_server_def insert_row_ids split: option.splits)

lemma process_response_ids:
  "distinct (map row_id db) \<Longrightarrow> distinct (map row_id (fst (process_response ok db data)))"
  by (simp add: process_response_def insert_row_ids Let_def split: option.splits)

lemma run_workers_ids:
  "distinct (map row_id db) \<Longrightarrow> distinct (map row_id (fst (run_workers db cs)))"
proof (induction cs arbitrary: db)
  case Nil
  then show ?case by simp
next
  case (Cons p cs)
  obtain srv env where p: "p = (srv, env)" by (cases p)
  obtain db1 res where q: "query_ntp_server env db srv = (db1, res)"
    by (cases "query_ntp_server env db srv")
  obtain db2 futs where w: "run_workers db1 cs = (db2, futs)" by (cases "run_workers db1 cs")
  have "distinct (map row_id db1)" using query_ntp_server_ids [OF Cons.prems, of env srv] q by simp
  then have "distinct (map row_id (fst (run_workers db1 cs)))" by (rule Cons.IH)
  then show ?case by (simp add: p q w)
qed

lemma collect_ids:
  "distinct (map row_id db) \<Longrightarrow> distinct (map row_id (fst (collect db futs ds os)))"
proof (induction futs arbitrary: db ds os)
  case Nil
  then show ?case by simp
next
  case (Cons f futs)
  obtain fut ok where f: "f = (fut, ok)" by (cases f)
  show ?case
  proof (cases fut)
    case (Inl e)
    then show ?thesis using Cons.prems by (simp add: f)
  next
    case (Inr data)
    obtain db1 res where q: "process_response ok db data = (db1, res)"
      by (cases "process_response ok db data")
    have d1: "distinct (map row_id db1)"
      using process_response_ids [OF Cons.prems, of ok data] q by simp
    show ?thesis
    proof (cases res)
      case (Inl e)
      then show ?thesis using d1 Inr q by (simp add: f)
    next
      case r: (Inr m)
      show ?thesis
      proof (cases m)
        case None
        then show ?thesis using Cons.IH [OF d1, of ds os] Inr q r by (simp add: f)
      next
        case (Some result)
        then show ?thesis
          using Cons.IH [OF d1, of "ds @ [delay result]" "os @ [offset result]"] Inr q r
          by (simp add: f)
      qed
    qed
  qed
qed

lemma run_cycle_ids:
  "distinct (map row_id db) \<Longrightarrow> distinct (map row_id (fst (run_cycle e db)))"
proof -
  assume d: "distinct (map row_id db)"
  obtain db1 futs where w: "run_workers db (completed e) = (db1, futs)"
    by (cases "run_workers db (completed e)")
  obtain db2 res where c: "collect db1 futs [] [] = (db2, res)"
    by (cases "collect db1 futs [] []")
  have d1: "distinct (map row_id db1)" using run_workers_ids [OF d, of "completed e"] w by simp
  have "distinct (map row_id db2)" using collect_ids [OF d1, of futs "[]" "[]"] c by simp
  then show ?thesis
    by (simp add: run_cycle_def w c split: sum.splits prod.splits)
qed

subsection \<open>The example cycles\<close>

lemma env_facts:
  "probe_failed (s, env_down)" "\<not> probe_failed (s, env_10ms)" "\<not> probe_failed (s, env_20ms)"
  "\<not> probe_failed (s, env_sink_down)"
  "sink_ok env_down" "sink_ok env_10ms" "sink_ok env_20ms" "\<not> sink_ok env_sink_down"
  by (simp_all add: probe_failed_def env_down_def env_10ms_def env_20ms_def env_sink_down_def)

lemma online_10ms:
  assumes "online_sample (s, env_10ms) r"
  shows "delay_ms r = 10" "offset_ms r = -1" "response_time_ms r = 1"
    "timestamp r = ''2024-01-01T10:00:00.750000+05:30''" "server r = s" "status r = ''Online''"
  using assms by (simp_all add: online_sample_def env_10ms_def reply_10ms_def clock_b_def)

lemma online_20ms:
  assumes "online_sample (s, env_20ms) r"
  shows "delay_ms r = 20" "offset_ms r = -6" "response_time_ms r = 1"
    "timestamp r = ''2024-01-01T10:00:00.750000+05:30''" "server r = s" "status r = ''Online''"
  using assms by (simp_all add: online_sample_def env_20ms_def reply_20ms_def clock_b_def)

lemma error_down:
  assumes "error_sample (s, env_down) r"
  shows "timestamp r = ''2024-01-01T10:00:05.500000+05:30''" "server r = s" "status r = ''Error''"
  using assms by (simp_all add: error_sample_def env_down_def clock_c_def)

lemma example_completed:
  "completed example_cycle =
    [(''time.google.com'', env_10ms), (''time.nist.gov'', env_20ms),
     (''157.20.66.8'', env_down), (''157.20.67.8'', env_down), (''14.139.60.103'', env_down),
     (''14.139.60.106'', env_down), (''14.139.60.107'', env_down),
     (''time.nplindia.in'', env_down), (''time.nplindia.org'', env_down),
     (''samay1.nic.in'', env_down), (''samay2.nic.in'', env_down), (''pool.ntp.org'', env_down),
     (''time.windows.com'', env_down), (''asia.pool.ntp.org'', env_down),
     (''uk.pool.ntp.org'', env_down)]"
  by (simp add: completed_def ntp_servers_def example_cycle_def)

lemma example_cycle_run:
  "\<exists>errs r1 r2.
     run_cycle example_cycle [] = (errs @ [r1, r2], Inr (summary_of example_cycle [r1, r2])) \<and>
     length errs = 13 \<and>
     (\<forall>r \<in> set errs. status r = ''Error'' \<and> timestamp r = ''2024-01-01T10:00:05.500000+05:30'') \<and>
     online_sample (''time.google.com'', env_10ms) r1 \<and>
     online_sample (''time.nist.gov'', env_20ms) r2"
proof -
  obtain errs ons where c:
    "run_cycle example_cycle [] =
       ([] @ errs @ ons,
        if all_sinks_ok (completed example_cycle) then Inr (summary_of example_cycle ons)
        else Inl OperationalError)"
    "list_all2 error_sample [p \<leftarrow> completed example_cycle. probe_failed p \<and> sink_ok (snd p)] errs"
    "list_all2 online_sample [p \<leftarrow> before_failure (completed example_cycle). \<not> probe_failed p] ons"
    using run_cycle_rows [of example_cycle "[]"] by blast
  have ok: "all_sinks_ok (completed example_cycle)"
    by (simp add: example_completed all_sinks_ok_def env_facts)
  have F: "[p \<leftarrow> completed example_cycle. probe_failed p \<and> sink_ok (snd p)] =
            drop 2 (completed example_cycle)"
    by (simp add: example_completed env_facts)
  have O: "[p \<leftarrow> before_failure (completed example_cycle). \<not> probe_failed p] =
            [(''time.google.com'', env_10ms), (''time.nist.gov'', env_20ms)]"
    by (simp add: before_failure_all [OF ok]) (simp add: example_completed env_facts)
  obtain r1 r2 where ons: "ons = [r1, r2]" "online_sample (''time.google.com'', env_10ms) r1"
      "online_sample (''time.nist.gov'', env_20ms) r2"
    using c(3) unfolding O by (auto simp: list_all2_Cons1)
  have "length errs = length (drop 2 (completed example_cycle))"
    using list_all2_lengthD [OF c(2)] by (simp only: F)
  then have len: "length errs = 13" by (simp add: example_completed)
  have e: "status r = ''Error'' \<and> timestamp r = ''2024-01-01T10:00:05.500000+05:30''"
    if "r \<in> set errs" for r
  proof -
    from list_all2_filter_witness [OF c(2) that]
    obtain p where p: "p \<in> set (completed example_cycle)" "probe_failed p" "error_sample p r"
      by blast
    then have "snd p = env_down" by (auto simp: example_completed env_facts)
    then have "error_sample (fst p, env_down) r" using p(3) by (cases p) simp
    then show ?thesis by (simp add: error_down)
  qed
  show ?thesis using c(1) ok ons len e by auto
qed



lemma sink_failure_completed:
  "completed sink_failure_cycle =
     (''157.20.66.8'', env_sink_down) #
     map (\<lambda>srv. (srv, env_20ms)) (tl ntp_servers)"
  by (simp add: completed_def ntp_servers_def sink_failure_cycle_def)

lemma sink_failure_cycle_run: "run_cycle sink_failure_cycle [] = ([], Inl OperationalError)"
proof -
  obtain errs ons where c:
    "run_cycle sink_failure_cycle [] =
       ([] @ errs @ ons,
        if all_sinks_ok (completed sink_failure_cycle)
        then Inr (summary_of sink_failure_cycle ons)
        else Inl OperationalError)"
    "list_all2 error_sample
       [p \<leftarrow> completed sink_failure_cycle. probe_failed p \<and> sink_ok (snd p)] errs"
    "list_all2 online_sample
       [p \<leftarrow> before_failure (completed sink_failure_cycle). \<not> probe_failed p] ons"
    using run_cycle_rows [of sink_failure_cycle "[]"] by blast
  have bad: "\<not> all_sinks_ok (completed sink_failure_cycle)"
    by (simp add: sink_failure_completed all_sinks_ok_def env_facts)
  have "[p \<leftarrow> completed sink_failure_cycle. probe_failed p \<and> sink_ok (snd p)] = []"
    by (simp add: sink_failure_completed env_facts filter_empty_conv)
  then have errs: "errs = []" using c(2) by simp
  have "before_failure (completed sink_failure_cycle) = []"
    by (simp add: sink_failure_completed before_failure_def env_facts)
  then have ons: "ons = []" using c(3) by simp
  show ?thesis using c(1) bad errs ons by simp
qed

lemma run_cycle_completes:
  assumes "\<forall>srv \<in> set ntp_servers. sink_ok (answers e srv)"
  shows "\<exists>db' s. run_cycle e db = (db', Inr s)"
proof -
  have "all_sinks_ok (completed e)" using assms by (simp add: all_sinks_ok_completed)
  then show ?thesis using run_cycle_rows [of e db] by auto
qed

lemma slow_sinks_ok: "\<forall>srv \<in> set ntp_servers. sink_ok (answers slow_cycle srv)"
  by (simp add: slow_cycle_def env_facts)

lemma example_sinks_ok: "\<forall>srv \<in> set ntp_servers. sink_ok (answers example_cycle srv)"
  by (simp add: example_cycle_def env_facts)

lemma sink_failure_sinks: "\<not> (\<forall>srv \<in> set ntp_servers. sink_ok (answers sink_failure_cycle srv))"
proof -
  have "''157.20.66.8'' \<in> set ntp_servers" by (simp add: ntp_servers_def)
  moreover have "\<not> sink_ok (answers sink_failure_cycle ''157.20.66.8'')"
    by (simp add: sink_failure_cycle_def env_facts)
  ultimately show ?thesis by blast
qed

section \<open>The realtime and history queries\<close>

lemma index_of_None: "index_of xs x = None \<longleftrightarrow> x \<notin> set xs"
  by (induction xs) auto




lemma sort_key_of_record: "sort_key_of (realtime_record r) = Inr (display_rank (server r))"
proof (cases "index_of preferred_order (server r)")
  case None
  then have "server r \<notin> set preferred_order" by (simp add: index_of_None)
  then show ?thesis using None by (simp add: sort_key_of_def realtime_record_def display_rank_def)
next
  case (Some i)
  then have "server r \<in> set preferred_order" using index_of_None [of preferred_order "server r"] by auto
  then show ?thesis using Some by (simp add: sort_key_of_def realtime_record_def display_rank_def)
qed

lemma sort_keys_records:
  "sort_keys (map realtime_record rows) = Inr (map (\<lambda>r. display_rank (server r)) rows)"
  by (induction rows) (simp_all add: sort_key_of_record)

lemma insort_key_map:
  "insort_key f (g x) (map g xs) = map g (insort_key (\<lambda>y. f (g y)) x xs)"
  by (induction xs) simp_all

lemma sort_key_map: "sort_key f (map g xs) = map g (sort_key (\<lambda>y. f (g y)) xs)"
  by (induction xs) (simp_all add: insort_key_map)

lemma sort_data_records:
  "sort_data (map realtime_record rows) =
     Inr (map realtime_record (sort_key (\<lambda>r. display_rank (server r)) rows))"
proof -
  let ?k = "\<lambda>r. display_rank (server r)"
  have z: "zip (map ?k rows) (map realtime_record rows) = map (\<lambda>r. (?k r, realtime_record r)) rows"
    by (induction rows) simp_all
  show ?thesis
    by (simp add: sort_data_def sort_keys_records z sort_key_map comp_def)
qed

lemma get_realtime_data_rows:
  "get_realtime_data True db =
     Inr (map realtime_record (sort_key (\<lambda>r. display_rank (server r)) (latest_rows db)))"
  by (simp add: get_realtime_data_def sort_data_records)





lemma max_id_stratum: "max_id (map (\<lambda>r. r\<lparr>stratum := f r\<rparr>) rows) = max_id rows"
  by (cases rows) (simp_all add: max_id_def comp_def)

lemma latest_rows_stratum:
  "latest_rows (map (\<lambda>r. r\<lparr>stratum := f r\<rparr>) db) = map (\<lambda>r. r\<lparr>stratum := f r\<rparr>) (latest_rows db)"
proof -
  let ?u = "\<lambda>r. r\<lparr>stratum := f r\<rparr>"
  have "[t2 \<leftarrow> map ?u db. server t2 = s] = map ?u [t2 \<leftarrow> db. server t2 = s]" for s
    by (simp add: filter_map comp_def)
  then show ?thesis
    by (simp add: latest_rows_def filter_map comp_def max_id_stratum)
qed

lemma realtime_record_stratum: "realtime_record (r\<lparr>stratum := x\<rparr>) = realtime_record r"
  by (simp add: realtime_record_def)

lemma history_record_stratum: "history_record (r\<lparr>stratum := x\<rparr>) = history_record r"
  by (simp add: history_record_def)

lemma get_realtime_data_stratum:
  "get_realtime_data ok (map (\<lambda>r. r\<lparr>stratum := f r\<rparr>) db) = get_realtime_data ok db"
proof (cases ok)
  case True
  then show ?thesis
    by (simp add: get_realtime_data_rows latest_rows_stratum sort_key_map
        realtime_record_stratum comp_def)
next
  case False
  then show ?thesis by (simp add: get_realtime_data_def)
qed

lemma get_history_stratum:
  "get_history ok (map (\<lambda>r. r\<lparr>stratum := f r\<rparr>) db) srv = get_history ok db srv"
  by (simp add: get_history_def filter_map comp_def sort_key_map rev_map take_map
      history_record_stratum Let_def)

lemma realtime_keys:
  assumes "get_realtime_data ok db = Inr data" and "d \<in> set data"
  shows "map fst d = [''timestamp'', ''server'', ''offset_ms'', ''delay_ms'', ''root_delay_ms'',
                     ''root_dispersion_ms'', ''response_time_ms'', ''precision_ms'', ''status'']"
proof -
  have ok using assms(1) by (auto simp: get_realtime_data_def split: if_splits)
  then obtain r where "d = realtime_record r"
    using assms by (auto simp: get_realtime_data_rows)
  then show ?thesis by (simp add: realtime_record_def)
qed

lemma history_keys:
  assumes "get_history ok db srv = Inr data" and "d \<in> set data"
  shows "map fst d = [''timestamp'', ''server'', ''offset_ms'', ''delay_ms'', ''root_delay_ms'',
                     ''root_dispersion_ms'', ''response_time_ms'', ''precision_ms'', ''status'']"
proof -
  obtain r where "d = history_record r"
    using assms by (auto simp: get_history_def Let_def split: if_splits)
  then show ?thesis by (simp add: history_record_def)
qed

lemma example_latest: "latest_rows example_db = [row_b, row_c, row_d]"
  by (simp add: latest_rows_def example_db_def max_id_def row_a_def row_b_def row_c_def row_d_def)

lemma example_ranks:
  "display_rank (server row_b) = 999" "display_rank (server row_c) = 0"
  "display_rank (server row_d) = 10"
  by (simp_all add: display_rank_def preferred_order_def row_b_def row_c_def row_d_def)

lemma example_realtime:
  "get_realtime_data True example_db = Inr (map realtime_record [row_c, row_d, row_b])"
  by (simp add: get_realtime_data_rows example_latest example_ranks)


lemma example_history:
  "get_history True example_db (Some ''time.google.com'') =
     Inr (map history_record [row_d, row_a])"
  by (simp add: get_history_def example_db_def row_a_def row_b_def row_c_def row_d_def)

lemma history_ties_in_table_order:
  "get_history True [row_a, row_a\<lparr>row_id := 9, delay_ms := 20\<rparr>] (Some ''time.google.com'') =
     Inr (map history_record [row_a, row_a\<lparr>row_id := 9, delay_ms := 20\<rparr>])"
  by (simp add: get_history_def row_a_def)

lemma example_record:
  "realtime_record row_c =
     [(''timestamp'', ''2024-01-01T10:05:00.750000+05:30''), (''server'', ''14.139.60.103''),
      (''offset_ms'', ''21.500''), (''delay_ms'', ''-35.000''), (''root_delay_ms'', ''1.000''),
      (''root_dispersion_ms'', ''2.000''), (''response_time_ms'', ''46.000''),
      (''precision_ms'', ''0.001''), (''status'', ''Online'')]"
  by (simp add: realtime_record_def row_c_def fmt3_def round_half_even_def str_nat.simps
      digit_char_def Let_def)

section \<open>The claims\<close>

text \<open>
  Claim C1. For every successful exchange with timestamps T1, T2, T3, T4 whose row the
  table accepts, the row stored and the metrics returned are the closed forms: the offset is ((T2 - T1) + (T3 - T4)) / 2 * 1000,
  the delay is ((T4 - T1) - (T3 - T2)) * 1000, whatever its sign, and the response time is
  (T3 - T2) * 1000.
\<close>

theorem exchange_metrics_closed_form:
  assumes "reply env = Some resp" and "sink_ok env"
  shows "\<exists>data row.
           query_ntp_server env db srv = (db, Inr (Some data)) \<and>
           process_response (sink_ok env) db (Some data) =
             (db @ [row], Inr (Some \<lparr>offset = offset_ms row, delay = delay_ms row\<rparr>)) \<and>
           offset_ms row =
             ((recv_time resp - orig_time resp) + (tx_time resp - dest_time resp)) / 2 * 1000 \<and>
           delay_ms row =
             ((dest_time resp - orig_time resp) - (tx_time resp - recv_time resp)) * 1000 \<and>
           response_time_ms row = (tx_time resp - recv_time resp) * 1000"
  using assms by (simp add: query_ntp_server_def process_response_def insert_row_def Let_def)

text \<open>
  At the skewed reply the delay is -35 ms, and it is stored and returned as such.
\<close>

theorem exchange_metrics_closed_form_witness:
  "reply env_skewed = Some reply_skewed \<and> sink_ok env_skewed \<and>
   (\<exists>data row.
      query_ntp_server env_skewed [] ''time.google.com'' = ([], Inr (Some data)) \<and>
      process_response (sink_ok env_skewed) [] (Some data) =
        ([] @ [row], Inr (Some \<lparr>offset = offset_ms row, delay = delay_ms row\<rparr>)) \<and>
      offset_ms row = 21.5 \<and> delay_ms row = - 35 \<and> response_time_ms row = 46)"
proof -
  have h: "reply env_skewed = Some reply_skewed" "sink_ok env_skewed"
    by (simp_all add: env_skewed_def)
  have v: "((recv_time reply_skewed - orig_time reply_skewed) +
            (tx_time reply_skewed - dest_time reply_skewed)) / 2 * 1000 = 21.5"
    "((dest_time reply_skewed - orig_time reply_skewed) -
      (tx_time reply_skewed - recv_time reply_skewed)) * 1000 = - 35"
    "(tx_time reply_skewed - recv_time reply_skewed) * 1000 = 46"
    by (simp_all add: reply_skewed_def)
  show ?thesis
    using exchange_metrics_closed_form [OF h, of "[]" "''time.google.com''"] h
    unfolding v by blast
qed

text \<open>
  Claim C2. In every cycle that runs to its end, the jitter is the sample standard
  deviation of the delays of the \<open>Online\<close> rows the cycle appended, \<open>Error\<close> rows left
  out, and 0 when fewer than two servers are \<open>Online\<close>; for the delays 10 ms and 20 ms it
  lies between 7.071 and 7.072.
\<close>

theorem jitter_is_sample_stdev_of_online_delays:
  assumes "run_cycle e db = (db', Inr s)"
  shows "let ds = map delay_ms [r \<leftarrow> drop (length db) db'. status r = ''Online'']
         in jitter s = (if length ds < 2 then 0 else sample_sd ds) \<and>
            (ds = [10, 20] \<or> ds = [20, 10] \<longrightarrow> 7.071 < jitter s \<and> jitter s < 7.072)"
proof -
  obtain ons where ons: "[r \<leftarrow> drop (length db) db'. status r = ''Online''] = ons"
    "s = summary_of e ons"
    using completed_cycle_rows [OF assms] by blast
  let ?ds = "map delay_ms ons"
  have j: "jitter s = (if length ?ds < 2 then 0 else sample_sd ?ds)"
    by (simp add: ons(2) summary_of_def)
  have sd: "sample_sd [10, 20] = sqrt 50" "sample_sd [20, 10] = sqrt 50"
    by (simp_all add: sample_sd_def)
  have lo: "7.071 < sqrt 50"
    by (rule real_less_rsqrt) (simp add: power2_eq_square)
  have hi: "sqrt 50 < 7.072"
    by (rule real_less_lsqrt) (simp_all add: power2_eq_square)
  have "?ds = [10, 20] \<or> ?ds = [20, 10] \<longrightarrow> 7.071 < jitter s \<and> jitter s < 7.072"
    using j sd lo hi by auto
  then show ?thesis using j by (simp add: ons(1) Let_def)
qed

theorem jitter_is_sample_stdev_of_online_delays_witness:
  "\<exists>db' s. run_cycle example_cycle [] = (db', Inr s) \<and>
     map delay_ms [r \<leftarrow> drop (length ([] :: ntp_data)) db'. status r = ''Online''] = [10, 20] \<and>
     jitter s = sample_sd [10, 20] \<and> 7.071 < jitter s \<and> jitter s < 7.072"
proof -
  obtain errs r1 r2 where r:
    "run_cycle example_cycle [] = (errs @ [r1, r2], Inr (summary_of example_cycle [r1, r2]))"
    "\<forall>r \<in> set errs. status r = ''Error'' \<and> timestamp r = ''2024-01-01T10:00:05.500000+05:30''"
    "online_sample (''time.google.com'', env_10ms) r1"
    "online_sample (''time.nist.gov'', env_20ms) r2"
    using example_cycle_run by blast
  have "[r \<leftarrow> errs. status r = ''Online''] = []" using r(2) by (simp add: filter_empty_conv)
  then have ds: "map delay_ms [r \<leftarrow> drop (length ([] :: ntp_data)) (errs @ [r1, r2]).
                   status r = ''Online''] = [10, 20]"
    using online_10ms [OF r(3)] online_20ms [OF r(4)] by simp
  have "jitter (summary_of example_cycle [r1, r2]) =
          (if length [10 :: real, 20] < 2 then 0 else sample_sd [10, 20]) \<and>
        ([10 :: real, 20] = [10, 20] \<or> [10 :: real, 20] = [20, 10] \<longrightarrow>
           7.071 < jitter (summary_of example_cycle [r1, r2]) \<and>
           jitter (summary_of example_cycle [r1, r2]) < 7.072)"
    using jitter_is_sample_stdev_of_online_delays [OF r(1)] unfolding Let_def ds .
  then have j: "jitter (summary_of example_cycle [r1, r2]) = sample_sd [10, 20]"
    "7.071 < jitter (summary_of example_cycle [r1, r2])"
    "jitter (summary_of example_cycle [r1, r2]) < 7.072"
    by simp_all
  show ?thesis
  proof (intro exI conjI)
    show "run_cycle example_cycle [] = (errs @ [r1, r2], Inr (summary_of example_cycle [r1, r2]))"
      by (rule r(1))
  qed (rule ds j)+
qed



text \<open>
  Claim C4, as the code has it. In every cycle in which the table accepts every insert,
  exactly one row is appended for every server of the roster, whether its probe succeeds or fails; the row of
  a failed probe has status \<open>Error\<close> and zero in every numeric column, the row of a
  successful one has status \<open>Online\<close>.
\<close>

theorem one_sample_per_server_per_cycle:
  assumes "\<forall>srv \<in> set ntp_servers. sink_ok (answers e srv)"
  shows "\<exists>new res. run_cycle e db = (db @ new, res) \<and>
           mset (map server new) = mset ntp_servers \<and>
           (\<forall>srv \<in> set ntp_servers. length [row \<leftarrow> new. server row = srv] = 1) \<and>
           (\<forall>row \<in> set new.
              if reply (answers e (server row)) = None
              then status row = ''Error'' \<and> offset_ms row = 0 \<and> delay_ms row = 0 \<and>
                   root_delay_ms row = 0 \<and> root_dispersion_ms row = 0 \<and> stratum row = 0 \<and>
                   response_time_ms row = 0 \<and> precision_ms row = 0
              else status row = ''Online'')"
proof -
  obtain errs ons where c:
    "run_cycle e db =
       (db @ errs @ ons,
        if all_sinks_ok (completed e) then Inr (summary_of e ons) else Inl OperationalError)"
    "list_all2 error_sample [p \<leftarrow> completed e. probe_failed p \<and> sink_ok (snd p)] errs"
    "list_all2 online_sample [p \<leftarrow> before_failure (completed e). \<not> probe_failed p] ons"
    using run_cycle_rows [of e db] by blast
  have ok: "all_sinks_ok (completed e)" using assms by (simp add: all_sinks_ok_completed)
  have f1: "[p \<leftarrow> completed e. probe_failed p \<and> sink_ok (snd p)] = [p \<leftarrow> completed e. probe_failed p]"
    using ok by (auto simp: all_sinks_ok_def intro: filter_cong)
  have f2: "before_failure (completed e) = completed e" using ok by (rule before_failure_all)
  let ?new = "errs @ ons"
  have "mset (map server ?new) =
          mset (map fst [p \<leftarrow> completed e. probe_failed p]) +
          mset (map fst [p \<leftarrow> completed e. \<not> probe_failed p])"
    using error_samples_servers [OF c(2)] online_samples_servers [OF c(3)] by (simp add: f1 f2)
  then have servers: "mset (map server ?new) = mset ntp_servers"
    by (simp only: mset_map_filter_split completed_servers)
  have once: "length [row \<leftarrow> ?new. server row = srv] = 1" if "srv \<in> set ntp_servers" for srv
    using roster_count [OF that] by (simp only: length_filter_count servers)
  have rows: "if reply (answers e (server row)) = None
              then status row = ''Error'' \<and> offset_ms row = 0 \<and> delay_ms row = 0 \<and>
                   root_delay_ms row = 0 \<and> root_dispersion_ms row = 0 \<and> stratum row = 0 \<and>
                   response_time_ms row = 0 \<and> precision_ms row = 0
              else status row = ''Online''" if "row \<in> set ?new" for row
  proof (cases "row \<in> set errs")
    case True
    from list_all2_filter_witness [OF c(2) True]
    obtain p where p: "p \<in> set (completed e)" "probe_failed p" "error_sample p row" by blast
    then have "reply (answers e (server row)) = None"
      using completed_env [OF p(1)] by (simp add: probe_failed_def error_sample_def)
    then show ?thesis using p(3) by (simp add: error_sample_def)
  next
    case False
    then have "row \<in> set ons" using that by simp
    from list_all2_filter_witness [OF c(3) this]
    obtain p where p: "p \<in> set (completed e)" "\<not> probe_failed p" "online_sample p row"
      using f2 by auto
    then have "reply (answers e (server row)) \<noteq> None"
      using completed_env [OF p(1)] by (simp add: probe_failed_def online_sample_def)
    then show ?thesis using p(3) by (simp add: online_sample_def)
  qed
  show ?thesis
  proof (intro exI conjI ballI)
    show "run_cycle e db =
       (db @ ?new,
        if all_sinks_ok (completed e) then Inr (summary_of e ons) else Inl OperationalError)"
      by (rule c(1))
    show "mset (map server ?new) = mset ntp_servers" by (rule servers)
    show "length [row \<leftarrow> ?new. server row = srv] = 1" if "srv \<in> set ntp_servers" for srv
      using that by (rule once)
    show "if reply (answers e (server row)) = None
              then status row = ''Error'' \<and> offset_ms row = 0 \<and> delay_ms row = 0 \<and>
                   root_delay_ms row = 0 \<and> root_dispersion_ms row = 0 \<and> stratum row = 0 \<and>
                   response_time_ms row = 0 \<and> precision_ms row = 0
              else status row = ''Online''" if "row \<in> set ?new" for row
      using that by (rule rows)
  qed
qed

theorem one_sample_per_server_per_cycle_witness:
  "[srv \<leftarrow> ntp_servers. \<not> sink_ok (answers example_cycle srv)] = [] \<and>
   (\<exists>new res. run_cycle example_cycle [] = (new, res) \<and>
      mset (map server new) = mset ntp_servers \<and>
      length [row \<leftarrow> new. server row = ''time.google.com''] = 1 \<and>
      length [row \<leftarrow> new. server row = ''pool.ntp.org''] = 1)"
proof -
  obtain new res where n: "run_cycle example_cycle [] = ([] @ new, res)"
    "mset (map server new) = mset ntp_servers"
    "\<forall>srv \<in> set ntp_servers. length [row \<leftarrow> new. server row = srv] = 1"
    using one_sample_per_server_per_cycle [OF example_sinks_ok, of "[]"] by blast
  have "''time.google.com'' \<in> set ntp_servers" "''pool.ntp.org'' \<in> set ntp_servers"
    by (simp_all add: ntp_servers_def)
  then have "length [row \<leftarrow> new. server row = ''time.google.com''] = 1"
    "length [row \<leftarrow> new. server row = ''pool.ntp.org''] = 1"
    using n(3) by blast+
  moreover have "[srv \<leftarrow> ntp_servers. \<not> sink_ok (answers example_cycle srv)] = []"
    using example_sinks_ok by (simp add: filter_empty_conv)
  ultimately show ?thesis using n(1,2) by auto
qed

text \<open>
  The claim as written, for every cycle, fails: when the insert for the first finished
  future is rejected, \<open>time.google.com\<close>, which answered and whose own insert would be
  accepted, gets no row in that cycle, and neither does the server whose insert was
  rejected.
\<close>

theorem one_sample_per_server_counterexample:
  "''time.google.com'' \<in> set ntp_servers \<and>
   reply (answers sink_failure_cycle ''time.google.com'') = Some reply_20ms \<and>
   sink_ok (answers sink_failure_cycle ''time.google.com'') \<and>
   [row \<leftarrow> fst (run_cycle sink_failure_cycle []). server row = ''time.google.com''] = [] \<and>
   [row \<leftarrow> fst (run_cycle sink_failure_cycle []). server row = ''157.20.66.8''] = []"
  by (simp add: sink_failure_cycle_run)
     (simp add: sink_failure_cycle_def env_20ms_def ntp_servers_def)

text \<open>
  Claim C5, as the code has it. A rejected insert is not caught: the exception leaves the
  cycle, no summary is computed, and the monitoring thread ends with it, so no later cycle
  runs. The rows of that cycle are the \<open>Error\<close> rows of the failed probes whose own insert
  is accepted and the \<open>Online\<close> rows of the successful probes that finished before the
  first future whose insert is rejected; a successful probe that finishes later leaves no
  row.
\<close>

theorem sink_failure_ends_cycle_and_thread:
  assumes "\<not> (\<forall>srv \<in> set ntp_servers. sink_ok (answers e srv))"
  shows "\<exists>new. run_cycle e db = (db @ new, Inl OperationalError) \<and>
           ntp_monitoring_loop db (e # es) = (db @ new, [], Some OperationalError) \<and>
           mset (map server new) =
             mset (map fst [p \<leftarrow> completed e. reply (snd p) = None \<and> sink_ok (snd p)]) +
             mset (map fst [p \<leftarrow> before_failure (completed e). reply (snd p) \<noteq> None])"
proof -
  obtain errs ons where c:
    "run_cycle e db =
       (db @ errs @ ons,
        if all_sinks_ok (completed e) then Inr (summary_of e ons) else Inl OperationalError)"
    "list_all2 error_sample [p \<leftarrow> completed e. probe_failed p \<and> sink_ok (snd p)] errs"
    "list_all2 online_sample [p \<leftarrow> before_failure (completed e). \<not> probe_failed p] ons"
    using run_cycle_rows [of e db] by blast
  have bad: "\<not> all_sinks_ok (completed e)" using assms by (simp add: all_sinks_ok_completed)
  have r: "run_cycle e db = (db @ (errs @ ons), Inl OperationalError)" using c(1) bad by simp
  then have l: "ntp_monitoring_loop db (e # es) = (db @ (errs @ ons), [], Some OperationalError)"
    by simp
  have "mset (map server (errs @ ons)) =
          mset (map fst [p \<leftarrow> completed e. reply (snd p) = None \<and> sink_ok (snd p)]) +
          mset (map fst [p \<leftarrow> before_failure (completed e). reply (snd p) \<noteq> None])"
    using error_samples_servers [OF c(2)] online_samples_servers [OF c(3)]
    by (simp add: probe_failed_def)
  then show ?thesis using r l by blast
qed

theorem sink_failure_ends_cycle_and_thread_witness:
  "\<not> (\<forall>srv \<in> set ntp_servers. sink_ok (answers sink_failure_cycle srv)) \<and>
   (\<exists>new. run_cycle sink_failure_cycle [] = (new, Inl OperationalError) \<and>
      ntp_monitoring_loop [] [sink_failure_cycle, example_cycle] =
        (new, [], Some OperationalError))"
  using sink_failure_ends_cycle_and_thread [OF sink_failure_sinks, of "[]" "[example_cycle]"]
    sink_failure_sinks
  by auto

text \<open>
  The claim as written fails: when only the insert for the first finished future is
  rejected, the cycle ends with the exception and none of the other servers, which all
  answered and whose inserts would be accepted, gets a row.
\<close>

theorem sink_failure_aborts_cycle_counterexample:
  "reply (answers sink_failure_cycle ''time.google.com'') \<noteq> None \<and>
   sink_ok (answers sink_failure_cycle ''time.google.com'') \<and>
   run_cycle sink_failure_cycle [] = ([], Inl OperationalError) \<and>
   ntp_monitoring_loop [] [sink_failure_cycle, example_cycle] = ([], [], Some OperationalError)"
  by (simp add: sink_failure_cycle_run) (simp add: sink_failure_cycle_def env_20ms_def)

text \<open>
  Claim C6, as the code has it. \<open>query_ntp_server\<close> leaves the table unchanged when the
  request succeeds; when the request fails it appends the \<open>Error\<close> row itself, and
  \<open>process_response\<close> then writes nothing for that probe.
\<close>

theorem prober_writes_error_row_on_failure_only:
  "(reply env \<noteq> None \<longrightarrow> fst (query_ntp_server env db srv) = db) \<and>
   (reply env = None \<and> sink_ok env \<longrightarrow>
      (\<exists>row. query_ntp_server env db srv = (db @ [row], Inr None) \<and>
             server row = srv \<and> status row = ''Error'' \<and>
             timestamp row = isoformat (now env)) \<and>
      process_response ok (fst (query_ntp_server env db srv)) None =
        (fst (query_ntp_server env db srv), Inr None))"
  by (auto simp: query_ntp_server_def insert_row_def process_response_def)

theorem prober_writes_error_row_on_failure_only_witness:
  "reply env_10ms \<noteq> None \<and> fst (query_ntp_server env_10ms [] ''time.google.com'') = [] \<and>
   reply env_down = None \<and> sink_ok env_down \<and>
   (\<exists>row. query_ntp_server env_down [] ''pool.ntp.org'' = ([] @ [row], Inr None) \<and>
      server row = ''pool.ntp.org'' \<and> status row = ''Error'')"
proof -
  have h: "reply env_10ms \<noteq> None" "reply env_down = None" "sink_ok env_down"
    by (simp_all add: env_10ms_def env_down_def)
  show ?thesis
    using prober_writes_error_row_on_failure_only [of env_10ms "[]" "''time.google.com''" True]
      prober_writes_error_row_on_failure_only [of env_down "[]" "''pool.ntp.org''" True] h
    by blast
qed

text \<open>
  The claim as written fails: a failed probe on the empty table leaves one row.
\<close>

theorem prober_writes_to_storage_counterexample:
  "reply env_down = None \<and>
   length (fst (query_ntp_server env_down [] ''pool.ntp.org'')) = 1 \<and>
   map status (fst (query_ntp_server env_down [] ''pool.ntp.org'')) = [''Error'']"
  by (simp add: query_ntp_server_def env_down_def insert_row_def)

text \<open>
  Claim C7, as the code has it. The timestamp of every row a cycle appends is the clock
  read in \<open>query_ntp_server\<close> right after the request of that server returned or raised; the
  instant the cycle started is not stored.
\<close>

theorem sample_timestamp_is_probe_clock:
  assumes "run_cycle e db = (db', res)"
  shows "\<forall>row \<in> set (drop (length db) db').
           timestamp row = isoformat (now (answers e (server row)))"
proof -
  obtain errs ons where c:
    "run_cycle e db =
       (db @ errs @ ons,
        if all_sinks_ok (completed e) then Inr (summary_of e ons) else Inl OperationalError)"
    "list_all2 error_sample [p \<leftarrow> completed e. probe_failed p \<and> sink_ok (snd p)] errs"
    "list_all2 online_sample [p \<leftarrow> before_failure (completed e). \<not> probe_failed p] ons"
    using run_cycle_rows [of e db] by blast
  have bf: "set (before_failure (completed e)) \<subseteq> set (completed e)"
    by (auto simp: before_failure_def dest: set_takeWhileD)
  have "timestamp row = isoformat (now (answers e (server row)))" if "row \<in> set (errs @ ons)" for row
  proof (cases "row \<in> set errs")
    case True
    from list_all2_filter_witness [OF c(2) True]
    obtain p where p: "p \<in> set (completed e)" "error_sample p row" by blast
    then show ?thesis using completed_env [OF p(1)] by (simp add: error_sample_def)
  next
    case False
    then have "row \<in> set ons" using that by simp
    from list_all2_filter_witness [OF c(3) this]
    obtain p where p: "p \<in> set (completed e)" "online_sample p row" using bf by blast
    then show ?thesis using completed_env [OF p(1)] by (simp add: online_sample_def)
  qed
  moreover have "db' = db @ errs @ ons" using assms c(1) by simp
  then have "drop (length db) db' = errs @ ons" by simp
  ultimately show ?thesis by simp
qed

theorem sample_timestamp_is_probe_clock_witness:
  "\<exists>db' res. run_cycle example_cycle [] = (db', res) \<and> length db' = 15 \<and>
     (\<forall>row \<in> set (drop (length ([] :: ntp_data)) db').
        timestamp row = isoformat (now (answers example_cycle (server row))))"
proof -
  obtain errs r1 r2 where r:
    "run_cycle example_cycle [] = (errs @ [r1, r2], Inr (summary_of example_cycle [r1, r2]))"
    "length errs = 13"
    using example_cycle_run by blast
  have "length (errs @ [r1, r2]) = 15" using r(2) by simp
  then show ?thesis using sample_timestamp_is_probe_clock [OF r(1)] r(1) by blast
qed

text \<open>
  The claim as written fails: in the example cycle, which starts at 10:00:00.5, the first
  row carries 10:00:05.5 and the last row 10:00:00.75.
\<close>

theorem cycle_timestamp_counterexample:
  "timestamp (fst (run_cycle example_cycle []) ! 0) = ''2024-01-01T10:00:05.500000+05:30'' \<and>
   timestamp (fst (run_cycle example_cycle []) ! 14) = ''2024-01-01T10:00:00.750000+05:30'' \<and>
   isoformat (cycle_start example_cycle) = ''2024-01-01T10:00:00.500000+05:30''"
proof -
  obtain errs r1 r2 where r:
    "run_cycle example_cycle [] = (errs @ [r1, r2], Inr (summary_of example_cycle [r1, r2]))"
    "length errs = 13"
    "\<forall>r \<in> set errs. status r = ''Error'' \<and> timestamp r = ''2024-01-01T10:00:05.500000+05:30''"
    "online_sample (''time.nist.gov'', env_20ms) r2"
    using example_cycle_run by blast
  have "errs ! 0 \<in> set errs" using r(2) by simp
  then have a: "timestamp ((errs @ [r1, r2]) ! 0) = ''2024-01-01T10:00:05.500000+05:30''"
    using r(2,3) by (simp add: nth_append)
  have b: "timestamp ((errs @ [r1, r2]) ! 14) = ''2024-01-01T10:00:00.750000+05:30''"
    using r(2) online_20ms(4) [OF r(4)] by (simp add: nth_append)
  have c: "isoformat (cycle_start example_cycle) = ''2024-01-01T10:00:00.500000+05:30''"
    by (simp add: example_cycle_def clock_a_def)
  show ?thesis using a b c by (simp add: r(1))
qed

text \<open>
  Claim C8. After every cycle that runs to its end the loop sleeps for
  max(0, 300000 - elapsed) milliseconds, elapsed being the time from the start of the cycle
  to the end of its summary, and then goes on with the next cycle on the table the cycle
  left; when elapsed is 300000 ms or more the sleep is zero, so the next cycle starts at
  once.
\<close>

theorem sleep_is_residual_interval:
  assumes "run_cycle e db = (db', Inr s)"
  shows "let elapsed_ms = (seconds (cycle_end e) - seconds (cycle_start e)) * 1000
         in sleep_time s * 1000 = max 0 (300000 - elapsed_ms) \<and>
            (elapsed_ms \<ge> 300000 \<longrightarrow> sleep_time s = 0) \<and>
            (\<exists>db'' ss r. ntp_monitoring_loop db' es = (db'', ss, r) \<and>
                         ntp_monitoring_loop db (e # es) = (db'', s # ss, r)) \<and>
            (\<forall>e' es' db2 s2. es = e' # es' \<and> run_cycle e' db' = (db2, Inr s2) \<longrightarrow>
               (\<exists>db'' ss r. ntp_monitoring_loop db (e # es) = (db'', s # s2 # ss, r)))"
proof -
  obtain ons where "s = summary_of e ons"
    using completed_cycle_rows [OF assms] by blast
  then have sl: "sleep_time s = sleep_for (cycle_start e) (cycle_end e)"
    by (simp add: summary_of_def)
  obtain db'' ss r where rest: "ntp_monitoring_loop db' es = (db'', ss, r)"
    by (cases "ntp_monitoring_loop db' es")
  have loop: "ntp_monitoring_loop db (e # es) = (db'', s # ss, r)"
    by (simp add: assms rest)
  have nxt: "\<exists>db'' ss r. ntp_monitoring_loop db (e # es) = (db'', s # s2 # ss, r)"
    if "es = e' # es'" "run_cycle e' db' = (db2, Inr s2)" for e' es' db2 s2
  proof -
    obtain db3 ss3 r3 where r3: "ntp_monitoring_loop db2 es' = (db3, ss3, r3)"
      by (cases "ntp_monitoring_loop db2 es'")
    have "ntp_monitoring_loop db (e # e' # es') = (db3, s # s2 # ss3, r3)"
      by (simp add: assms that(2) r3)
    then show ?thesis using that(1) by blast
  qed
  have 1: "sleep_time s * 1000 =
             max 0 (300000 - (seconds (cycle_end e) - seconds (cycle_start e)) * 1000)"
    by (simp add: sl sleep_for_def Let_def max_def)
  have 2: "(seconds (cycle_end e) - seconds (cycle_start e)) * 1000 \<ge> 300000
             \<longrightarrow> sleep_time s = 0"
    by (simp add: sl sleep_for_def Let_def max_def)
  have 3: "\<exists>db'' ss r. ntp_monitoring_loop db' es = (db'', ss, r) \<and>
                       ntp_monitoring_loop db (e # es) = (db'', s # ss, r)"
    using rest loop by blast
  have 4: "\<forall>e' es' db2 s2. es = e' # es' \<and> run_cycle e' db' = (db2, Inr s2) \<longrightarrow>
               (\<exists>db'' ss r. ntp_monitoring_loop db (e # es) = (db'', s # s2 # ss, r))"
    using nxt by blast
  show ?thesis unfolding Let_def using 1 2 3 4 by (intro conjI)
qed

text \<open>
  The slow cycle takes 310 seconds: its sleep is zero and the example cycle follows at
  once on the table it left; the example cycle takes 5 seconds and sleeps 295.
\<close>

theorem sleep_is_residual_interval_witness:
  "\<exists>db1 s1 db2 s2.
     run_cycle slow_cycle [] = (db1, Inr s1) \<and>
     (seconds (cycle_end slow_cycle) - seconds (cycle_start slow_cycle)) * 1000 \<ge> 300000 \<and>
     sleep_time s1 = 0 \<and>
     run_cycle example_cycle db1 = (db2, Inr s2) \<and>
     sleep_time s2 * 1000 = 295000 \<and>
     ntp_monitoring_loop [] [slow_cycle, example_cycle] = (db2, [s1, s2], None)"
proof -
  obtain db1 s1 where r1: "run_cycle slow_cycle [] = (db1, Inr s1)"
    using run_cycle_completes [OF slow_sinks_ok, of "[]"] by blast
  obtain db2 s2 where r2: "run_cycle example_cycle db1 = (db2, Inr s2)"
    using run_cycle_completes [OF example_sinks_ok, of db1] by blast
  have e1: "(seconds (cycle_end slow_cycle) - seconds (cycle_start slow_cycle)) * 1000 = 310000"
    by (simp add: slow_cycle_def clock_a_def clock_d_def)
  have e2: "(seconds (cycle_end example_cycle) - seconds (cycle_start example_cycle)) * 1000 = 5000"
    by (simp add: example_cycle_def clock_a_def clock_c_def)
  have t1: "sleep_time s1 * 1000 = max 0 (300000 - 310000) \<and>
            ((310000 :: real) \<ge> 300000 \<longrightarrow> sleep_time s1 = 0) \<and>
            (\<exists>db'' ss r. ntp_monitoring_loop db1 [example_cycle] = (db'', ss, r) \<and>
               ntp_monitoring_loop [] [slow_cycle, example_cycle] = (db'', s1 # ss, r)) \<and>
            (\<forall>e' es' db2 s2. [example_cycle] = e' # es' \<and> run_cycle e' db1 = (db2, Inr s2) \<longrightarrow>
               (\<exists>db'' ss r. ntp_monitoring_loop [] [slow_cycle, example_cycle] =
                  (db'', s1 # s2 # ss, r)))"
    using sleep_is_residual_interval [OF r1, of "[example_cycle]"] unfolding Let_def e1 .
  then have z: "sleep_time s1 = 0" by simp
  have t2: "sleep_time s2 * 1000 = max 0 (300000 - 5000)"
    using sleep_is_residual_interval [OF r2, of "[]"] unfolding Let_def e2 by (elim conjE)
  then have s2: "sleep_time s2 * 1000 = 295000" by simp
  obtain db'' ss r where l: "ntp_monitoring_loop db1 [example_cycle] = (db'', ss, r)"
    "ntp_monitoring_loop [] [slow_cycle, example_cycle] = (db'', s1 # ss, r)"
    using t1 by blast
  have "ntp_monitoring_loop db1 [example_cycle] = (db2, [s2], None)" by (simp add: r2)
  then have lp: "ntp_monitoring_loop [] [slow_cycle, example_cycle] = (db2, [s1, s2], None)"
    using l by simp
  have ge: "(seconds (cycle_end slow_cycle) - seconds (cycle_start slow_cycle)) * 1000 \<ge> 300000"
    unfolding e1 by simp
  show ?thesis
  proof (intro exI conjI)
    show "run_cycle slow_cycle [] = (db1, Inr s1)" by (rule r1)
    show "run_cycle example_cycle db1 = (db2, Inr s2)" by (rule r2)
  qed (rule ge z s2 lp)+
qed



text \<open>
  Claim C10. Neither endpoint serialises the stratum column: the answers do not change
  when the stratum of every row is replaced, and no record has a key \<open>stratum\<close>.
\<close>

theorem stratum_never_serialised:
  "get_realtime_data ok (map (\<lambda>r. r\<lparr>stratum := f r\<rparr>) db) = get_realtime_data ok db \<and>
   get_history ok (map (\<lambda>r. r\<lparr>stratum := f r\<rparr>) db) srv = get_history ok db srv \<and>
   (\<forall>data. get_realtime_data ok db = Inr data \<or> get_history ok db srv = Inr data \<longrightarrow>
      (\<forall>d \<in> set data. ''stratum'' \<notin> set (map fst d) \<and> map_of d ''stratum'' = None))"
proof (intro conjI allI impI ballI)
  show "get_realtime_data ok (map (\<lambda>r. r\<lparr>stratum := f r\<rparr>) db) = get_realtime_data ok db"
    by (rule get_realtime_data_stratum)
  show "get_history ok (map (\<lambda>r. r\<lparr>stratum := f r\<rparr>) db) srv = get_history ok db srv"
    by (rule get_history_stratum)
next
  fix data d
  assume a: "get_realtime_data ok db = Inr data \<or> get_history ok db srv = Inr data"
    and d: "d \<in> set data"
  have k: "map fst d = [''timestamp'', ''server'', ''offset_ms'', ''delay_ms'', ''root_delay_ms'',
                     ''root_dispersion_ms'', ''response_time_ms'', ''precision_ms'', ''status'']"
    using a d realtime_keys history_keys by blast
  show "''stratum'' \<notin> set (map fst d)" by (simp only: k) simp
  then show "map_of d ''stratum'' = None" by (simp add: map_of_eq_None_iff)
qed

theorem stratum_never_serialised_witness:
  "get_realtime_data True example_db = Inr (map realtime_record [row_c, row_d, row_b]) \<and>
   get_history True example_db (Some ''time.google.com'') = Inr (map history_record [row_d, row_a]) \<and>
   map (\<lambda>d. map_of d ''stratum'') (map realtime_record [row_c, row_d, row_b]) =
     [None, None, None] \<and>
   map (\<lambda>d. map_of d ''stratum'') (map history_record [row_d, row_a]) = [None, None] \<and>
   get_realtime_data True (map (\<lambda>r. r\<lparr>stratum := 16\<rparr>) example_db) =
     Inr (map realtime_record [row_c, row_d, row_b])"
  using stratum_never_serialised [of True "\<lambda>r. 16" example_db "Some ''time.google.com''"]
    example_realtime example_history
  by simp

end
